theory Spec2Isabelle
  imports Main
begin

section \<open>Wall-clock time\<close>

text \<open>
  A JavaScript \<^verbatim>\<open>Date\<close> holds a time value: the number of milliseconds since the epoch,
  in UTC. The scheduler only uses the UTC accessors, so the model needs no time zone and no
  calendar. The accessors follow the ECMAScript definitions
  (\<^verbatim>\<open>Day(t) = floor(t / msPerDay)\<close>, \<^verbatim>\<open>HourFromTime(t) = floor(t / msPerHour) modulo 24\<close>, ...);
  \<open>div\<close> on \<open>int\<close> rounds towards minus infinity, as \<^verbatim>\<open>floor\<close> does.
  Time values read from the system clock are far inside the range of \<^verbatim>\<open>Date\<close>
  (\<open>\<plusminus>8.64e15\<close> ms), so the range check of \<^verbatim>\<open>TimeClip\<close> is not modelled.
\<close>

type_synonym time = int

definition msPerMinute :: int where
  "msPerMinute = 60000"

definition msPerHour :: int where
  "msPerHour = 3600000"

definition msPerDay :: int where
  "msPerDay = 86400000"

definition utcDay :: "time \<Rightarrow> int" where
  "utcDay t = t div msPerDay"

definition timeWithinDay :: "time \<Rightarrow> int" where
  "timeWithinDay t = t mod msPerDay"

definition getUTCHours :: "time \<Rightarrow> int" where
  "getUTCHours t = (t div msPerHour) mod 24"

definition getUTCMinutes :: "time \<Rightarrow> int" where
  "getUTCMinutes t = (t div msPerMinute) mod 60"

definition getUTCSeconds :: "time \<Rightarrow> int" where
  "getUTCSeconds t = (t div 1000) mod 60"

definition getUTCMilliseconds :: "time \<Rightarrow> int" where
  "getUTCMilliseconds t = t mod 1000"

text \<open>
  \<^verbatim>\<open>d.setUTCDate(d.getUTCDate() + 1)\<close>: ECMAScript builds the new time value from
  \<^verbatim>\<open>MakeDay(year, month, date + 1)\<close>, which is the day number after \<^verbatim>\<open>Day(t)\<close>
  (a day of the month past the end of the month runs into the next month), and
  \<^verbatim>\<open>TimeWithinDay(t)\<close>.
\<close>

definition setUTCDate_next :: "time \<Rightarrow> time" where
  "setUTCDate_next t = (utcDay t + 1) * msPerDay + timeWithinDay t"

text \<open>\<^verbatim>\<open>d.setUTCHours(h, m, s, ms)\<close>: \<^verbatim>\<open>MakeDate(Day(t), MakeTime(h, m, s, ms))\<close>.\<close>

definition setUTCHours :: "time \<Rightarrow> int \<Rightarrow> int \<Rightarrow> int \<Rightarrow> int \<Rightarrow> time" where
  "setUTCHours t h m s ms = utcDay t * msPerDay + (h * msPerHour + m * msPerMinute + s * 1000 + ms)"

section \<open>Configuration\<close>

text \<open>
  \<^verbatim>\<open>CONFIG\<close> of scheduler.js is a module constant. \<^verbatim>\<open>__dirname\<close> is the directory of the
  module; its value plays no role below.
\<close>

definition path_join :: "string \<Rightarrow> string \<Rightarrow> string" where
  "path_join d f = d @ ''/'' @ f"

definition dirname :: string where
  "dirname = ''/app''"

record config =
  peakHoursEST_start :: nat
  gapMinutes :: nat
  outputDir :: string
  tempDir :: string

definition CONFIG :: config where
  "CONFIG = \<lparr> peakHoursEST_start = 18, gapMinutes = 30,
              outputDir = path_join dirname ''output'', tempDir = path_join dirname ''.temp'' \<rparr>"

section \<open>The schedule calculator\<close>

text \<open>
  \<^verbatim>\<open>calculateSchedule(count)\<close> reads the clock once with \<^verbatim>\<open>new Date()\<close> (the parameter
  \<open>now\<close>) and once more in every iteration with \<^verbatim>\<open>Date.now()\<close> (\<open>dateNow i\<close> is the reading of
  iteration \<open>i\<close>). The unused local \<^verbatim>\<open>peakEnd\<close> is left out.
\<close>

definition estOffset :: int where
  "estOffset = - 5"

definition estHour :: "time \<Rightarrow> int" where
  "estHour now = (getUTCHours now + estOffset + 24) mod 24"

definition scheduleForTomorrow :: "time \<Rightarrow> bool" where
  "scheduleForTomorrow now = (estHour now \<ge> int (peakHoursEST_start CONFIG))"

text \<open>The loop body up to and including \<^verbatim>\<open>publishTime.setUTCHours(...)\<close>: the nominal slot.\<close>

definition nominalSlot :: "time \<Rightarrow> nat \<Rightarrow> time" where
  "nominalSlot now i =
     (let publishTime = now;
          publishTime = (if scheduleForTomorrow now then setUTCDate_next publishTime else publishTime);
          targetESTHour = int (peakHoursEST_start CONFIG);
          slotMinutes = int i * int (gapMinutes CONFIG);
          targetUTCHour = (targetESTHour - estOffset + slotMinutes div 60) mod 24;
          targetUTCMinutes = slotMinutes mod 60
      in setUTCHours publishTime targetUTCHour targetUTCMinutes 0 0)"

text \<open>The rest of the loop body: the check against \<^verbatim>\<open>Date.now() + 15 * 60 * 1000\<close>.\<close>

definition publishSlot :: "time \<Rightarrow> (nat \<Rightarrow> time) \<Rightarrow> nat \<Rightarrow> time" where
  "publishSlot now dateNow i =
     (let publishTime = nominalSlot now i;
          minTime = dateNow i + 15 * 60 * 1000
      in if publishTime < minTime then setUTCDate_next publishTime else publishTime)"

definition calculateSchedule :: "time \<Rightarrow> (nat \<Rightarrow> time) \<Rightarrow> nat \<Rightarrow> time list" where
  "calculateSchedule now dateNow count = map (publishSlot now dateNow) [0..<count]"

text \<open>A clock that shows the same reading at every call, for concrete runs.\<close>

definition frozenClock :: "time \<Rightarrow> nat \<Rightarrow> time" where
  "frozenClock t i = t"

text \<open>
  The date in the reference time zone (\<^verbatim>\<open>estOffset\<close> hours from UTC) and the time of day of
  slot \<open>i\<close> within its UTC day; both serve to state and prove properties of the schedule.
\<close>

definition estDay :: "time \<Rightarrow> int" where
  "estDay t = utcDay (t + estOffset * msPerHour)"

definition slotOffset :: "nat \<Rightarrow> int" where
  "slotOffset i =
     ((23 + (int i * 30) div 60) mod 24) * msPerHour + ((int i * 30) mod 60) * msPerMinute"

section \<open>The pending queue\<close>

text \<open>
  The queue is the directory \<^verbatim>\<open>CONFIG.outputDir\<close>. The file system is modelled as far as the
  scheduler looks at it: the directory is missing (\<open>None\<close>) or holds entries, in the order in
  which \<^verbatim>\<open>readdirSync\<close> lists them. An entry is a file name, its modification time and a
  flag that tells whether the system refuses to remove the file (a file that is in use, an
  immutable file, a file that another user owns in a sticky directory). No other process
  touches the directory during a run. The names in a directory are distinct (\<open>wellFormed\<close>).
\<close>

type_synonym entry = "string \<times> time \<times> bool"

type_synonym filesystem = "entry list option"

definition entryName :: "entry \<Rightarrow> string" where
  "entryName e = fst e"

definition entryMtime :: "entry \<Rightarrow> time" where
  "entryMtime e = fst (snd e)"

definition entryLocked :: "entry \<Rightarrow> bool" where
  "entryLocked e = snd (snd e)"

text \<open>
  The errors of \<^verbatim>\<open>fs\<close> carry the system call and the path; \<^verbatim>\<open>error.message\<close> reads, for
  example, \<^verbatim>\<open>ENOENT: no such file or directory, unlink '/app/output/a.mp4'\<close>.
\<close>

datatype fs_error = ENOENT string string | EPERM string string

definition quoted :: "string \<Rightarrow> string" where
  "quoted p = [CHR 0x27] @ p @ [CHR 0x27]"

definition errorMessage :: "fs_error \<Rightarrow> string" where
  "errorMessage e =
     (case e of
        ENOENT syscall p \<Rightarrow> ''ENOENT: no such file or directory, '' @ syscall @ '' '' @ quoted p
      | EPERM syscall p \<Rightarrow> ''EPERM: operation not permitted, '' @ syscall @ '' '' @ quoted p)"


definition entryPath :: "entry \<Rightarrow> string" where
  "entryPath e = path_join (outputDir CONFIG) (entryName e)"

definition existsSync :: "filesystem \<Rightarrow> string \<Rightarrow> bool" where
  "existsSync fs p =
     (case fs of None \<Rightarrow> False
               | Some es \<Rightarrow> p = outputDir CONFIG \<or> p \<in> set (map entryPath es))"

text \<open>\<^verbatim>\<open>fs.readdirSync(CONFIG.outputDir)\<close> raises when the directory is missing.\<close>

definition readdirSync :: "filesystem \<Rightarrow> fs_error + string list" where
  "readdirSync fs =
     (case fs of None \<Rightarrow> Inl (ENOENT ''scandir'' (outputDir CONFIG))
               | Some es \<Rightarrow> Inr (map entryName es))"

text \<open>
  \<^verbatim>\<open>fs.statSync(p).mtime\<close>. The comparator of \<^verbatim>\<open>getPendingVideos\<close> applies it only to paths
  that were just listed, where it finds the entry.
\<close>

definition statSync_mtime :: "filesystem \<Rightarrow> string \<Rightarrow> time" where
  "statSync_mtime fs p =
     (case fs of None \<Rightarrow> 0
               | Some es \<Rightarrow> (case map_of (map (\<lambda>e. (entryPath e, entryMtime e)) es) p of
                              None \<Rightarrow> 0 | Some m \<Rightarrow> m))"

text \<open>
  \<^verbatim>\<open>fs.unlinkSync(p)\<close> removes a file. It raises when there is none, when the path is the
  directory, and when the system refuses to remove the file.
\<close>

definition unlinkSync :: "filesystem \<Rightarrow> string \<Rightarrow> fs_error + filesystem" where
  "unlinkSync fs p =
     (case fs of None \<Rightarrow> Inl (ENOENT ''unlink'' p)
               | Some es \<Rightarrow>
                   if p = outputDir CONFIG then Inl (EPERM ''unlink'' p)
                   else (case find (\<lambda>e. entryPath e = p) es of
                           None \<Rightarrow> Inl (ENOENT ''unlink'' p)
                         | Some e \<Rightarrow>
                             if entryLocked e then Inl (EPERM ''unlink'' p)
                             else Inr (Some (filter (\<lambda>e. entryPath e \<noteq> p) es))))"

text \<open>\<^verbatim>\<open>String.prototype.endsWith\<close> and \<^verbatim>\<open>startsWith\<close>.\<close>

definition endsWith :: "string \<Rightarrow> string \<Rightarrow> bool" where
  "endsWith s searchString =
     (length searchString \<le> length s \<and> drop (length s - length searchString) s = searchString)"

definition startsWith :: "string \<Rightarrow> string \<Rightarrow> bool" where
  "startsWith s searchString = (take (length searchString) s = searchString)"

text \<open>
  \<^verbatim>\<open>Array.prototype.sort\<close> is stable and the comparator orders by modification time:
  \<open>sort_key\<close>, an insertion sort, is stable too.
\<close>

definition getPendingVideos :: "filesystem \<Rightarrow> fs_error + string list" where
  "getPendingVideos fs =
     (if \<not> existsSync fs (outputDir CONFIG) then Inr []
      else case readdirSync fs of
             Inl e \<Rightarrow> Inl e
           | Inr names \<Rightarrow>
               Inr (sort_key (statSync_mtime fs)
                      (map (path_join (outputDir CONFIG))
                         (filter (\<lambda>f. endsWith f ''.mp4'') names))))"

definition deleteVideo :: "filesystem \<Rightarrow> string \<Rightarrow> fs_error + filesystem" where
  "deleteVideo fs videoPath =
     (if existsSync fs videoPath then unlinkSync fs videoPath else Inr fs)"

section \<open>The uploader\<close>

text \<open>
  \<^verbatim>\<open>uploader.uploadVideo\<close> first checks that the file exists. Everything after that
  (credentials, authorisation, the request to the platform) is outside the program: its
  outcome is a parameter, a video id or the error that \<^verbatim>\<open>uploadVideo\<close> rethrows. Of the
  response only the fields that the orchestrator's results are read by are kept
  (\<^verbatim>\<open>videoUrl\<close>, \<^verbatim>\<open>studioUrl\<close>, \<^verbatim>\<open>title\<close> and \<^verbatim>\<open>publishAt\<close> are display data).
\<close>

datatype api_outcome = ApiOk string | ApiError string

record uploadResponse =
  response_success :: bool
  response_videoId :: string

definition uploadVideo :: "filesystem \<Rightarrow> api_outcome \<Rightarrow> string \<Rightarrow> time \<Rightarrow> string + uploadResponse" where
  "uploadVideo fs outcome videoPath publishAt =
     (if \<not> existsSync fs videoPath then Inl (''Video file not found: '' @ videoPath)
      else case outcome of
             ApiError message \<Rightarrow> Inl message
           | ApiOk vid \<Rightarrow> Inr \<lparr> response_success = True, response_videoId = vid \<rparr>)"

section \<open>The orchestrator\<close>

text \<open>
  The state of a run: the file system and the log of the calls of \<^verbatim>\<open>uploader.uploadVideo\<close>
  (path and publish time). A result object has the fields that one of the three object
  literals of \<^verbatim>\<open>uploadAllPending\<close> sets; an absent field is \<open>None\<close>.
\<close>

record world =
  files :: filesystem
  uploadCalls :: "(string \<times> time) list"

record publishResult =
  success :: "bool option"
  videoId :: "string option"
  error :: "string option"
  videoPath :: string
  scheduledFor :: "time option"
  dryRun :: "bool option"

text \<open>\<^verbatim>\<open>schedule[i]\<close>: \<^verbatim>\<open>undefined\<close> past the end of the array.\<close>

definition arrayIndex :: "'a list \<Rightarrow> nat \<Rightarrow> 'a option" where
  "arrayIndex xs i = (if i < length xs then Some (xs ! i) else None)"

definition failureResult :: "string \<Rightarrow> string \<Rightarrow> publishResult" where
  "failureResult message p =
     \<lparr> success = Some False, videoId = None, error = Some message, videoPath = p,
       scheduledFor = None, dryRun = None \<rparr>"

definition successResult :: "uploadResponse \<Rightarrow> string \<Rightarrow> time \<Rightarrow> publishResult" where
  "successResult result p publishTime =
     \<lparr> success = Some (response_success result), videoId = Some (response_videoId result),
       error = None, videoPath = p, scheduledFor = Some publishTime, dryRun = None \<rparr>"

definition dryRunResult :: "string \<Rightarrow> time option \<Rightarrow> publishResult" where
  "dryRunResult p slot =
     \<lparr> success = None, videoId = None, error = None, videoPath = p,
       scheduledFor = slot, dryRun = Some True \<rparr>"

text \<open>
  One iteration of the upload loop. The \<^verbatim>\<open>try\<close> block holds the call of the uploader, the
  push of the success result and \<^verbatim>\<open>deleteVideo\<close>; whatever it throws reaches the
  \<^verbatim>\<open>catch\<close>, which pushes a failure result. \<open>api i\<close> is the platform's answer to the
  request of iteration \<open>i\<close>. Reading \<^verbatim>\<open>publishTime.toISOString()\<close> of a missing slot would
  throw a \<^verbatim>\<open>TypeError\<close> inside the \<^verbatim>\<open>try\<close>.
\<close>

definition uploadIteration ::
  "(nat \<Rightarrow> api_outcome) \<Rightarrow> string list \<Rightarrow> time list \<Rightarrow> nat
     \<Rightarrow> world \<times> publishResult list \<Rightarrow> world \<times> publishResult list" where
  "uploadIteration api pendingVideos schedule i st =
     (let w = fst st; results = snd st; videoPath = pendingVideos ! i
      in case arrayIndex schedule i of
           None \<Rightarrow>
             (w, results @ [failureResult ''Cannot read properties of undefined'' videoPath])
         | Some publishTime \<Rightarrow>
             (let w = w\<lparr> uploadCalls := uploadCalls w @ [(videoPath, publishTime)] \<rparr>
              in case uploadVideo (files w) (api i) videoPath publishTime of
                   Inl message \<Rightarrow> (w, results @ [failureResult message videoPath])
                 | Inr result \<Rightarrow>
                     (let results = results @ [successResult result videoPath publishTime]
                      in case deleteVideo (files w) videoPath of
                           Inl e \<Rightarrow> (w, results @ [failureResult (errorMessage e) videoPath])
                         | Inr fs' \<Rightarrow> (w\<lparr> files := fs' \<rparr>, results))))"

definition uploadAllPending ::
  "time \<Rightarrow> (nat \<Rightarrow> time) \<Rightarrow> (nat \<Rightarrow> api_outcome) \<Rightarrow> bool \<Rightarrow> world
     \<Rightarrow> fs_error + world \<times> publishResult list" where
  "uploadAllPending now dateNow api dry w =
     (case getPendingVideos (files w) of
        Inl e \<Rightarrow> Inl e
      | Inr pendingVideos \<Rightarrow>
          if length pendingVideos = 0 then Inr (w, [])
          else
            (let schedule = calculateSchedule now dateNow (length pendingVideos)
             in if dry
                then Inr (w, map (\<lambda>i. dryRunResult (pendingVideos ! i) (arrayIndex schedule i))
                               [0..<length pendingVideos])
                else Inr (fold (uploadIteration api pendingVideos schedule)
                            [0..<length pendingVideos] (w, []))))"

section \<open>Auxiliary definitions for the proofs\<close>

text \<open>
  The entries of the output directory (none when it is missing) and the queue that
  \<^verbatim>\<open>getPendingVideos\<close> reads from them.
\<close>

definition entriesOf :: "filesystem \<Rightarrow> entry list" where
  "entriesOf fs = (case fs of None \<Rightarrow> [] | Some es \<Rightarrow> es)"

definition queueOf :: "entry list \<Rightarrow> string list" where
  "queueOf es = sort_key (statSync_mtime (Some es))
                  (map (path_join (outputDir CONFIG))
                     (filter (\<lambda>f. endsWith f ''.mp4'') (map entryName es)))"


definition lockedAt :: "entry list \<Rightarrow> string \<Rightarrow> bool" where
  "lockedAt es p =
     (case find (\<lambda>e. entryPath e = p) es of None \<Rightarrow> False | Some e \<Rightarrow> entryLocked e)"

definition resultsAt ::
  "(nat \<Rightarrow> api_outcome) \<Rightarrow> entry list \<Rightarrow> string list \<Rightarrow> time list \<Rightarrow> nat \<Rightarrow> publishResult list" where
  "resultsAt api es ps sched i =
     (case api i of
        ApiError message \<Rightarrow> [failureResult message (ps ! i)]
      | ApiOk vid \<Rightarrow>
          successResult \<lparr> response_success = True, response_videoId = vid \<rparr> (ps ! i) (sched ! i)
          # (if lockedAt es (ps ! i)
             then [failureResult (errorMessage (EPERM ''unlink'' (ps ! i))) (ps ! i)]
             else []))"


text \<open>
  Concrete runs: a directory with three videos \<open>a\<close>, \<open>b\<close>, \<open>c\<close> in order of age and one other
  file; a platform that rejects the second request only; a directory that holds a hidden
  file with the video suffix beside a video; a directory with two videos, the older of which
  the system refuses to remove; a platform that accepts every request.
\<close>

definition exampleDirectory :: filesystem where
  "exampleDirectory =
     Some [(''b.mp4'', 20, False), (''notes.txt'', 5, False), (''a.mp4'', 10, False),
           (''c.mp4'', 30, False)]"

definition exampleWorld :: world where
  "exampleWorld = \<lparr> files = exampleDirectory, uploadCalls = [] \<rparr>"

definition secondFails :: "nat \<Rightarrow> api_outcome" where
  "secondFails i = (if i = 1 then ApiError ''quotaExceeded'' else ApiOk ''id'')"

definition hiddenDirectory :: filesystem where
  "hiddenDirectory = Some [(''._clip.mp4'', 10, False), (''clip.mp4'', 20, False)]"

definition lockedDirectory :: filesystem where
  "lockedDirectory = Some [(''b.mp4'', 20, False), (''a.mp4'', 10, True)]"

definition lockedWorld :: world where
  "lockedWorld = \<lparr> files = lockedDirectory, uploadCalls = [] \<rparr>"

definition allSucceed :: "nat \<Rightarrow> api_outcome" where
  "allSucceed i = ApiOk ''id''"

section \<open>Properties of the schedule calculator\<close>

lemma setUTCDate_next_eq: "setUTCDate_next t = t + msPerDay"
  by (simp add: setUTCDate_next_def utcDay_def timeWithinDay_def algebra_simps)

lemma day_split: "t = utcDay t * msPerDay + timeWithinDay t"
  by (simp add: utcDay_def timeWithinDay_def)

lemma timeWithinDay_bounds: "0 \<le> timeWithinDay t \<and> timeWithinDay t < msPerDay"
  by (simp add: timeWithinDay_def msPerDay_def)

lemma hour_split:
  "timeWithinDay t = getUTCHours t * msPerHour + t mod msPerHour"
proof -
  have "t mod (msPerHour * 24) = msPerHour * (t div msPerHour mod 24) + t mod msPerHour"
    by (rule zmod_zmult2_eq) simp
  then show ?thesis
    by (simp add: timeWithinDay_def getUTCHours_def msPerDay_def msPerHour_def)
qed

lemma getUTCHours_bounds: "0 \<le> getUTCHours t \<and> getUTCHours t < 24"
  by (simp add: getUTCHours_def)

lemma scheduleForTomorrow_iff:
  "scheduleForTomorrow now \<longleftrightarrow> getUTCHours now = 23 \<or> getUTCHours now \<le> 4"
proof -
  have "0 \<le> getUTCHours now \<and> getUTCHours now < 24" by (rule getUTCHours_bounds)
  then show ?thesis
    unfolding scheduleForTomorrow_def estHour_def estOffset_def CONFIG_def
    by simp presburger
qed

lemma utcDay_shift: "utcDay (d * msPerDay + r) = d + r div msPerDay"
  by (simp add: utcDay_def msPerDay_def)

lemma utcDay_next: "utcDay (t + msPerDay) = utcDay t + 1"
  by (simp add: utcDay_def msPerDay_def)

lemma nominalSlot_eq:
  "nominalSlot now i = (utcDay now + (if scheduleForTomorrow now then 1 else 0)) * msPerDay + slotOffset i"
  by (simp add: nominalSlot_def Let_def setUTCHours_def setUTCDate_next_eq slotOffset_def
      CONFIG_def estOffset_def utcDay_next)

lemma slotOffset_bounds: "0 \<le> slotOffset i \<and> slotOffset i < msPerDay"
proof -
  have h: "0 \<le> (23 + (int i * 30) div 60) mod 24 \<and> (23 + (int i * 30) div 60) mod 24 < 24"
    by simp
  have m: "0 \<le> (int i * 30) mod 60 \<and> (int i * 30) mod 60 < 60"
    by simp
  from h m show ?thesis
    unfolding slotOffset_def msPerHour_def msPerMinute_def msPerDay_def by linarith
qed

lemma publishSlot_cases:
  "publishSlot now dateNow i =
     (if nominalSlot now i < dateNow i + 15 * msPerMinute then nominalSlot now i + msPerDay
      else nominalSlot now i)"
  by (simp add: publishSlot_def Let_def setUTCDate_next_eq msPerMinute_def)

lemma slotOffset_minute: "\<exists>k. slotOffset i = k * msPerMinute"
proof -
  have "slotOffset i = (((23 + (int i * 30) div 60) mod 24) * 60 + (int i * 30) mod 60) * msPerMinute"
    by (simp add: slotOffset_def msPerHour_def msPerMinute_def algebra_simps)
  then show ?thesis by blast
qed

lemma publishSlot_minute: "\<exists>k. publishSlot now dateNow i = k * msPerMinute"
proof -
  obtain k where k: "slotOffset i = k * msPerMinute" using slotOffset_minute by blast
  have d: "msPerDay = 1440 * msPerMinute" by (simp add: msPerDay_def msPerMinute_def)
  have "nominalSlot now i = ((utcDay now + (if scheduleForTomorrow now then 1 else 0)) * 1440 + k) * msPerMinute"
    by (simp add: nominalSlot_eq k d algebra_simps)
  moreover have "nominalSlot now i + msPerDay = ((utcDay now + (if scheduleForTomorrow now then 1 else 0)) * 1440 + k + 1440) * msPerMinute"
    by (simp add: nominalSlot_eq k d algebra_simps)
  ultimately show ?thesis
    unfolding publishSlot_cases by (metis (full_types))
qed

lemma whole_minute: "getUTCSeconds (k * msPerMinute) = 0 \<and> getUTCMilliseconds (k * msPerMinute) = 0"
proof -
  have e: "k * msPerMinute = (k * 60) * 1000" by (simp add: msPerMinute_def)
  have "((k * 60) * 1000) div 1000 = k * 60" by simp
  moreover have "((k * 60) * 1000) mod 1000 = 0" by simp
  ultimately show ?thesis
    unfolding getUTCSeconds_def getUTCMilliseconds_def e by simp
qed

lemma length_calculateSchedule: "length (calculateSchedule now dateNow count) = count"
  by (simp add: calculateSchedule_def)

lemma nth_calculateSchedule: "i < count \<Longrightarrow> calculateSchedule now dateNow count ! i = publishSlot now dateNow i"
  by (simp add: calculateSchedule_def)

lemma utcDay_unique: "0 \<le> x \<Longrightarrow> x < msPerDay \<Longrightarrow> utcDay (d * msPerDay + x) = d"
  by (simp add: utcDay_def msPerDay_def)

lemma getUTCHours_next: "getUTCHours (t + msPerDay) = getUTCHours t"
proof -
  have "(t + 24 * msPerHour) div msPerHour = t div msPerHour + 24"
    by (simp add: msPerHour_def)
  then show ?thesis
    by (simp add: getUTCHours_def msPerDay_def msPerHour_def)
qed

lemma getUTCMinutes_next: "getUTCMinutes (t + msPerDay) = getUTCMinutes t"
proof -
  have "(t + 1440 * msPerMinute) div msPerMinute = t div msPerMinute + 24 * 60"
    by (simp add: msPerMinute_def)
  then have "getUTCMinutes (t + 1440 * msPerMinute) = (t div msPerMinute + 24 * 60) mod 60"
    by (simp only: getUTCMinutes_def)
  also have "\<dots> = (t div msPerMinute) mod 60"
    by (rule mod_mult_self1)
  finally show ?thesis
    by (simp add: getUTCMinutes_def msPerDay_def msPerMinute_def)
qed

lemma now_before_next_day:
  assumes "\<not> scheduleForTomorrow now"
  shows "now + 15 * msPerMinute < (utcDay now + 1) * msPerDay"
proof -
  have H: "getUTCHours now \<le> 22"
    using assms getUTCHours_bounds [of now] by (simp add: scheduleForTomorrow_iff)
  have s: "now mod msPerHour < msPerHour" by (simp add: msPerHour_def)
  have "timeWithinDay now < 23 * msPerHour"
    using H s unfolding hour_split [of now] msPerHour_def by linarith
  then have "utcDay now * msPerDay + timeWithinDay now + 15 * msPerMinute < (utcDay now + 1) * msPerDay"
    by (simp add: msPerHour_def msPerDay_def msPerMinute_def algebra_simps)
  then show ?thesis using day_split [of now] by simp
qed

lemma advanced_slot_lead:
  "now + 15 * msPerMinute < nominalSlot now i + msPerDay"
proof (cases "scheduleForTomorrow now")
  case True
  have "now < (utcDay now + 1) * msPerDay"
    using day_split [of now] timeWithinDay_bounds [of now] by (simp add: algebra_simps)
  moreover have "(utcDay now + 1) * msPerDay \<le> nominalSlot now i"
    using True slotOffset_bounds [of i] by (simp add: nominalSlot_eq)
  ultimately show ?thesis by (simp add: msPerMinute_def msPerDay_def)
next
  case False
  have "utcDay now * msPerDay \<le> nominalSlot now i"
    using False slotOffset_bounds [of i] by (simp add: nominalSlot_eq)
  then show ?thesis using now_before_next_day [OF False] by (simp add: algebra_simps)
qed

lemma publishSlot_lead:
  assumes "now \<le> dateNow i"
  shows "now + 15 * msPerMinute \<le> publishSlot now dateNow i"
  using assms advanced_slot_lead [of now i] by (simp add: publishSlot_cases)

lemma publishSlot_lead_clock:
  assumes "dateNow i \<le> now + 45 * msPerMinute"
  shows "dateNow i + 15 * msPerMinute \<le> publishSlot now dateNow i"
proof (cases "nominalSlot now i < dateNow i + 15 * msPerMinute")
  case False
  then show ?thesis by (simp add: publishSlot_cases)
next
  case adv: True
  show ?thesis
  proof (cases "scheduleForTomorrow now")
    case True
    have "now < (utcDay now + 1) * msPerDay"
      using day_split [of now] timeWithinDay_bounds [of now] by (simp add: algebra_simps)
    moreover have "(utcDay now + 1) * msPerDay \<le> nominalSlot now i"
      using True slotOffset_bounds [of i] by (simp add: nominalSlot_eq)
    ultimately show ?thesis using assms adv
      by (simp add: publishSlot_cases msPerMinute_def msPerDay_def)
  next
    case False
    have "utcDay now * msPerDay \<le> nominalSlot now i"
      using False slotOffset_bounds [of i] by (simp add: nominalSlot_eq)
    moreover have "timeWithinDay now < 23 * msPerHour"
    proof -
      have H: "getUTCHours now \<le> 22"
        using False getUTCHours_bounds [of now] by (simp add: scheduleForTomorrow_iff)
      have s: "now mod msPerHour < msPerHour" by (simp add: msPerHour_def)
      show ?thesis using H s unfolding hour_split [of now] msPerHour_def by linarith
    qed
    ultimately have "dateNow i + 15 * msPerMinute \<le> nominalSlot now i + msPerDay"
      using assms day_split [of now]
      unfolding msPerMinute_def msPerDay_def msPerHour_def by linarith
    then show ?thesis using adv by (simp add: publishSlot_cases)
  qed
qed

lemma estDay_today:
  assumes "\<not> scheduleForTomorrow now"
  shows "estDay now = utcDay now"
proof -
  have H: "5 \<le> getUTCHours now \<and> getUTCHours now \<le> 22"
    using assms getUTCHours_bounds [of now] by (simp add: scheduleForTomorrow_iff)
  have s: "0 \<le> now mod msPerHour \<and> now mod msPerHour < msPerHour" by (simp add: msPerHour_def)
  have "0 \<le> timeWithinDay now - 5 * msPerHour \<and> timeWithinDay now - 5 * msPerHour < msPerDay"
    using H s unfolding hour_split [of now] msPerHour_def msPerDay_def by linarith
  then have "utcDay (utcDay now * msPerDay + (timeWithinDay now - 5 * msPerHour)) = utcDay now"
    by (simp add: utcDay_unique)
  moreover have "now + estOffset * msPerHour = utcDay now * msPerDay + (timeWithinDay now - 5 * msPerHour)"
    using day_split [of now] by (simp add: estOffset_def)
  ultimately show ?thesis by (simp add: estDay_def)
qed

lemma estDay_at_peak:
  assumes "getUTCHours now = 23"
  shows "estDay now = utcDay now"
proof -
  have s: "0 \<le> now mod msPerHour \<and> now mod msPerHour < msPerHour" by (simp add: msPerHour_def)
  have "0 \<le> timeWithinDay now - 5 * msPerHour \<and> timeWithinDay now - 5 * msPerHour < msPerDay"
    using assms s unfolding hour_split [of now] msPerHour_def msPerDay_def by linarith
  then have "utcDay (utcDay now * msPerDay + (timeWithinDay now - 5 * msPerHour)) = utcDay now"
    by (simp add: utcDay_unique)
  moreover have "now + estOffset * msPerHour = utcDay now * msPerDay + (timeWithinDay now - 5 * msPerHour)"
    using day_split [of now] by (simp add: estOffset_def)
  ultimately show ?thesis by (simp add: estDay_def)
qed

lemma slotOffset_0: "slotOffset 0 = 23 * msPerHour"
  by (simp add: slotOffset_def)

lemma estDay_peak_start: "estDay (d * msPerDay + 23 * msPerHour) = d"
proof -
  have e: "d * msPerDay + 23 * msPerHour + estOffset * msPerHour = d * msPerDay + 18 * msPerHour"
    by (simp add: estOffset_def)
  show ?thesis
    unfolding estDay_def e by (rule utcDay_unique) (simp_all add: msPerHour_def msPerDay_def)
qed

lemma estHour_peak_iff: "estHour now = 18 \<longleftrightarrow> getUTCHours now = 23"
proof -
  have "0 \<le> getUTCHours now \<and> getUTCHours now < 24" by (rule getUTCHours_bounds)
  then show ?thesis
    unfolding estHour_def estOffset_def by simp presburger
qed

subsection \<open>Claims about the schedule\<close>

text \<open>
  C2. The claim: for every count of at least one, the schedule has exactly that many slots,
  strictly increasing, each 30 minutes after the one before. The code computes the hour of
  slot \<open>i\<close> modulo 24 and never carries the overflow into the date. Run at 18:00 in the
  reference zone (2024-01-15T23:00:00Z) with three pending videos, it returns
  2024-01-16T23:00Z, 2024-01-16T23:30Z and then 2024-01-16T00:00Z: the third slot is 23 hours
  before the first.
\<close>

theorem schedule_not_increasing_at_peak_start:
  "calculateSchedule 1705359600000 (frozenClock 1705359600000) 3
     = [1705446000000, 1705447800000, 1705363200000]
   \<and> \<not> sorted_wrt (<) (calculateSchedule 1705359600000 (frozenClock 1705359600000) 3)
   \<and> calculateSchedule 1705359600000 (frozenClock 1705359600000) 3 ! 2
       < calculateSchedule 1705359600000 (frozenClock 1705359600000) 3 ! 0"
proof -
  have e: "calculateSchedule 1705359600000 (frozenClock 1705359600000) 3
             = [1705446000000, 1705447800000, 1705363200000]"
    by code_simp
  show ?thesis unfolding e by simp
qed

text \<open>
  C3. Every slot of the schedule is at least 15 minutes after \<open>now\<close>, provided the clock
  reading of the iteration is not before \<open>now\<close>; it is at least 15 minutes after that reading
  too when the loop took no more than 45 minutes to get there. A nominal slot that is less
  than 15 minutes after the reading is moved by exactly one day, which keeps its hour and
  minute; any other nominal slot is returned as it is.
\<close>

theorem schedule_minimum_lead:
  assumes "i < count" and "now \<le> dateNow i"
  shows "now + 15 * msPerMinute \<le> calculateSchedule now dateNow count ! i
    \<and> (dateNow i \<le> now + 45 * msPerMinute
         \<longrightarrow> dateNow i + 15 * msPerMinute \<le> calculateSchedule now dateNow count ! i)
    \<and> (nominalSlot now i < dateNow i + 15 * msPerMinute
         \<longrightarrow> calculateSchedule now dateNow count ! i = nominalSlot now i + msPerDay
           \<and> getUTCHours (calculateSchedule now dateNow count ! i) = getUTCHours (nominalSlot now i)
           \<and> getUTCMinutes (calculateSchedule now dateNow count ! i) = getUTCMinutes (nominalSlot now i))
    \<and> (dateNow i + 15 * msPerMinute \<le> nominalSlot now i
         \<longrightarrow> calculateSchedule now dateNow count ! i = nominalSlot now i)"
proof -
  have n: "calculateSchedule now dateNow count ! i = publishSlot now dateNow i"
    using assms(1) by (rule nth_calculateSchedule)
  have a: "now + 15 * msPerMinute \<le> publishSlot now dateNow i"
    using assms(2) by (rule publishSlot_lead)
  have b: "dateNow i \<le> now + 45 * msPerMinute
             \<longrightarrow> dateNow i + 15 * msPerMinute \<le> publishSlot now dateNow i"
    using publishSlot_lead_clock by blast
  have c: "nominalSlot now i < dateNow i + 15 * msPerMinute
             \<longrightarrow> publishSlot now dateNow i = nominalSlot now i + msPerDay
               \<and> getUTCHours (publishSlot now dateNow i) = getUTCHours (nominalSlot now i)
               \<and> getUTCMinutes (publishSlot now dateNow i) = getUTCMinutes (nominalSlot now i)"
    by (simp add: publishSlot_cases getUTCHours_next getUTCMinutes_next)
  have d: "dateNow i + 15 * msPerMinute \<le> nominalSlot now i
             \<longrightarrow> publishSlot now dateNow i = nominalSlot now i"
    by (simp add: publishSlot_cases)
  show ?thesis unfolding n using a b c d by blast
qed

text \<open>
  A run at 10:00 in the reference zone (2024-01-15T15:00:00Z): slot 0 is today's 23:00Z and
  is kept, slot 2 is nominally today's 00:00Z, which is past, and is moved to tomorrow.
\<close>

theorem schedule_minimum_lead_witness:
  "(0::nat) < 3 \<and> (1705330800000::int) \<le> frozenClock 1705330800000 0
   \<and> frozenClock 1705330800000 0 + 15 * msPerMinute \<le> nominalSlot 1705330800000 0
   \<and> calculateSchedule 1705330800000 (frozenClock 1705330800000) 3 ! 0 = nominalSlot 1705330800000 0
   \<and> (2::nat) < 3 \<and> (1705330800000::int) \<le> frozenClock 1705330800000 2
   \<and> frozenClock 1705330800000 2 \<le> 1705330800000 + 45 * msPerMinute
   \<and> nominalSlot 1705330800000 2 < frozenClock 1705330800000 2 + 15 * msPerMinute
   \<and> calculateSchedule 1705330800000 (frozenClock 1705330800000) 3 ! 2
       = nominalSlot 1705330800000 2 + msPerDay
   \<and> 1705330800000 + 15 * msPerMinute
       \<le> calculateSchedule 1705330800000 (frozenClock 1705330800000) 3 ! 2
   \<and> frozenClock 1705330800000 2 + 15 * msPerMinute
       \<le> calculateSchedule 1705330800000 (frozenClock 1705330800000) 3 ! 2"
proof -
  have n0: "nominalSlot 1705330800000 0 = 1705359600000" by code_simp
  have n2: "nominalSlot 1705330800000 2 = 1705276800000" by code_simp
  have h0: "(0::nat) < 3" and h2: "(2::nat) < 3" by simp_all
  have c0: "(1705330800000::int) \<le> frozenClock 1705330800000 0"
    and c2: "(1705330800000::int) \<le> frozenClock 1705330800000 2"
    by (simp_all add: frozenClock_def)
  show ?thesis
    using schedule_minimum_lead
        [where i = 0 and count = 3 and now = 1705330800000
           and dateNow = "frozenClock 1705330800000", OF h0 c0]
      schedule_minimum_lead
        [where i = 2 and count = 3 and now = 1705330800000
           and dateNow = "frozenClock 1705330800000", OF h2 c2]
    by (simp add: n0 n2 frozenClock_def msPerMinute_def)
qed

text \<open>
  C4. The claim: a run before the peak hour puts the first slot on today's date of the
  reference zone, a run at or after it on tomorrow's. It fails both ways. At 17:50
  (2024-01-15T22:50:00Z) today's peak start is only ten minutes away, and the check for the
  15 minutes moves the first slot to tomorrow. At 19:00 (2024-01-15T00:00:00Z, the 14th in
  the reference zone) the first slot falls on the 16th, two days later.
\<close>

theorem first_slot_day_counterexample:
  "(estHour 1705359000000 < int (peakHoursEST_start CONFIG)
    \<and> estDay (calculateSchedule 1705359000000 (frozenClock 1705359000000) 1 ! 0)
        \<noteq> estDay 1705359000000)
   \<and> (int (peakHoursEST_start CONFIG) \<le> estHour 1705276800000
    \<and> estDay (calculateSchedule 1705276800000 (frozenClock 1705276800000) 1 ! 0)
        \<noteq> estDay 1705276800000 + 1)"
proof -
  have a: "estHour 1705359000000 = 17" by code_simp
  have b: "estHour 1705276800000 = 19" by code_simp
  have c: "calculateSchedule 1705359000000 (frozenClock 1705359000000) 1 = [1705446000000]"
    by code_simp
  have d: "calculateSchedule 1705276800000 (frozenClock 1705276800000) 1 = [1705446000000]"
    by code_simp
  have e: "estDay 1705359000000 = 19737" by code_simp
  have f: "estDay 1705276800000 = 19736" by code_simp
  have g: "estDay 1705446000000 = 19738" by code_simp
  show ?thesis unfolding a b c d by (simp add: e f g CONFIG_def)
qed

text \<open>
  C4, amended. With at least one slot: when the run starts before the peak hour and the
  nominal first slot is at least 15 minutes after the clock reading of the first iteration,
  the first slot falls on today's date of the reference zone; when it starts before the peak
  hour and the nominal first slot is less than 15 minutes after that reading, on tomorrow's;
  when it starts within the peak hour itself and the nominal first slot is at least 15 minutes
  after that reading, on tomorrow's. (Nothing is said about a run after the peak hour.)
\<close>

theorem first_slot_reference_day:
  assumes "0 < count"
  shows "(estHour now < int (peakHoursEST_start CONFIG)
            \<and> dateNow 0 + 15 * msPerMinute \<le> nominalSlot now 0
          \<longrightarrow> estDay (calculateSchedule now dateNow count ! 0) = estDay now)
    \<and> (estHour now < int (peakHoursEST_start CONFIG)
            \<and> nominalSlot now 0 < dateNow 0 + 15 * msPerMinute
          \<longrightarrow> estDay (calculateSchedule now dateNow count ! 0) = estDay now + 1)
    \<and> (estHour now = int (peakHoursEST_start CONFIG)
            \<and> dateNow 0 + 15 * msPerMinute \<le> nominalSlot now 0
          \<longrightarrow> estDay (calculateSchedule now dateNow count ! 0) = estDay now + 1)"
proof -
  have n: "calculateSchedule now dateNow count ! 0 = publishSlot now dateNow 0"
    using assms by (rule nth_calculateSchedule)
  have p: "int (peakHoursEST_start CONFIG) = 18" by (simp add: CONFIG_def)
  have before: "estHour now < 18 \<Longrightarrow> \<not> scheduleForTomorrow now"
    by (simp add: scheduleForTomorrow_def p)
  have today: "estHour now < 18 \<Longrightarrow> nominalSlot now 0 = utcDay now * msPerDay + 23 * msPerHour"
    using before by (simp add: nominalSlot_eq slotOffset_0)
  have at_peak: "estHour now = 18 \<Longrightarrow> nominalSlot now 0 = (utcDay now + 1) * msPerDay + 23 * msPerHour"
    by (simp add: nominalSlot_eq slotOffset_0 scheduleForTomorrow_def p)
  have next_day: "d * msPerDay + 23 * msPerHour + msPerDay = (d + 1) * msPerDay + 23 * msPerHour" for d
    by (simp add: algebra_simps)
  have 1: "estHour now < 18 \<and> dateNow 0 + 15 * msPerMinute \<le> nominalSlot now 0
             \<longrightarrow> estDay (publishSlot now dateNow 0) = estDay now"
  proof (intro impI, elim conjE)
    assume h: "estHour now < 18" and g: "dateNow 0 + 15 * msPerMinute \<le> nominalSlot now 0"
    have "publishSlot now dateNow 0 = utcDay now * msPerDay + 23 * msPerHour"
      using g today [OF h] by (simp add: publishSlot_cases)
    then show "estDay (publishSlot now dateNow 0) = estDay now"
      using estDay_today [OF before [OF h]] by (simp add: estDay_peak_start)
  qed
  have 2: "estHour now < 18 \<and> nominalSlot now 0 < dateNow 0 + 15 * msPerMinute
             \<longrightarrow> estDay (publishSlot now dateNow 0) = estDay now + 1"
  proof (intro impI, elim conjE)
    assume h: "estHour now < 18" and g: "nominalSlot now 0 < dateNow 0 + 15 * msPerMinute"
    have "publishSlot now dateNow 0 = utcDay now * msPerDay + 23 * msPerHour + msPerDay"
      using g today [OF h] by (simp add: publishSlot_cases)
    then have "publishSlot now dateNow 0 = (utcDay now + 1) * msPerDay + 23 * msPerHour"
      by (simp only: next_day)
    then show "estDay (publishSlot now dateNow 0) = estDay now + 1"
      using estDay_today [OF before [OF h]] by (simp add: estDay_peak_start)
  qed
  have 3: "estHour now = 18 \<and> dateNow 0 + 15 * msPerMinute \<le> nominalSlot now 0
             \<longrightarrow> estDay (publishSlot now dateNow 0) = estDay now + 1"
  proof (intro impI, elim conjE)
    assume h: "estHour now = 18" and g: "dateNow 0 + 15 * msPerMinute \<le> nominalSlot now 0"
    have "publishSlot now dateNow 0 = (utcDay now + 1) * msPerDay + 23 * msPerHour"
      using g at_peak [OF h] by (simp add: publishSlot_cases)
    moreover have "estDay now = utcDay now"
      using h by (simp add: estDay_at_peak estHour_peak_iff)
    ultimately show "estDay (publishSlot now dateNow 0) = estDay now + 1"
      by (simp add: estDay_peak_start)
  qed
  show ?thesis unfolding n p using 1 2 3 by blast
qed

text \<open>
  Runs with six pending videos at 10:00, at 17:50 and at 18:30 in the reference zone
  (2024-01-15T15:00Z, T22:50Z and T23:30Z): the first slot is on the 15th, on the 16th and on
  the 16th.
\<close>

theorem first_slot_reference_day_witness:
  "(0::nat) < 6
   \<and> estHour 1705330800000 < int (peakHoursEST_start CONFIG)
   \<and> frozenClock 1705330800000 0 + 15 * msPerMinute \<le> nominalSlot 1705330800000 0
   \<and> estDay (calculateSchedule 1705330800000 (frozenClock 1705330800000) 6 ! 0)
       = estDay 1705330800000
   \<and> estHour 1705359000000 < int (peakHoursEST_start CONFIG)
   \<and> nominalSlot 1705359000000 0 < frozenClock 1705359000000 0 + 15 * msPerMinute
   \<and> estDay (calculateSchedule 1705359000000 (frozenClock 1705359000000) 6 ! 0)
       = estDay 1705359000000 + 1
   \<and> estHour 1705361400000 = int (peakHoursEST_start CONFIG)
   \<and> frozenClock 1705361400000 0 + 15 * msPerMinute \<le> nominalSlot 1705361400000 0
   \<and> estDay (calculateSchedule 1705361400000 (frozenClock 1705361400000) 6 ! 0)
       = estDay 1705361400000 + 1"
proof -
  have h: "(0::nat) < 6" by simp
  have a: "estHour 1705330800000 = 10" by code_simp
  have b: "estHour 1705359000000 = 17" by code_simp
  have c: "estHour 1705361400000 = 18" by code_simp
  have na: "nominalSlot 1705330800000 0 = 1705359600000" by code_simp
  have nb: "nominalSlot 1705359000000 0 = 1705359600000" by code_simp
  have nc: "nominalSlot 1705361400000 0 = 1705446000000" by code_simp
  show ?thesis
    using first_slot_reference_day [OF h, of 1705330800000 "frozenClock 1705330800000"]
      first_slot_reference_day [OF h, of 1705359000000 "frozenClock 1705359000000"]
      first_slot_reference_day [OF h, of 1705361400000 "frozenClock 1705361400000"]
    by (simp add: a b c na nb nc frozenClock_def msPerMinute_def CONFIG_def)
qed

text \<open>
  C10. Every slot of the schedule is a whole minute: its seconds and its milliseconds are
  zero.
\<close>

theorem schedule_whole_minutes:
  assumes "i < count"
  shows "getUTCSeconds (calculateSchedule now dateNow count ! i) = 0
    \<and> getUTCMilliseconds (calculateSchedule now dateNow count ! i) = 0"
proof -
  obtain k where "publishSlot now dateNow i = k * msPerMinute"
    using publishSlot_minute by blast
  then show ?thesis
    using assms by (simp add: nth_calculateSchedule whole_minute)
qed

theorem schedule_whole_minutes_witness:
  "(2::nat) < 3
   \<and> getUTCSeconds (calculateSchedule 1705330812345 (frozenClock 1705330812345) 3 ! 2) = 0
   \<and> getUTCMilliseconds (calculateSchedule 1705330812345 (frozenClock 1705330812345) 3 ! 2) = 0"
proof -
  have h: "(2::nat) < 3" by simp
  show ?thesis
    using h schedule_whole_minutes [OF h, of 1705330812345 "frozenClock 1705330812345"] by simp
qed

section \<open>Properties of the queue and of the orchestrator\<close>

lemma getPendingVideos_None: "getPendingVideos None = Inr []"
  by (simp add: getPendingVideos_def existsSync_def)

lemma getPendingVideos_Some: "getPendingVideos (Some es) = Inr (queueOf es)"
  by (simp add: getPendingVideos_def existsSync_def readdirSync_def queueOf_def)

lemma getPendingVideos_queueOf: "getPendingVideos fs = Inr (queueOf (entriesOf fs))"
proof (cases fs)
  case None
  then show ?thesis by (simp add: getPendingVideos_None entriesOf_def queueOf_def)
next
  case (Some es)
  then show ?thesis by (simp add: getPendingVideos_Some entriesOf_def)
qed

lemma path_join_inject: "path_join d f = path_join d g \<Longrightarrow> f = g"
  by (simp add: path_join_def)


lemma distinct_entryPaths:
  assumes "distinct (map entryName es)"
  shows "distinct (map entryPath es)"
proof -
  have "map entryPath es = map (path_join (outputDir CONFIG)) (map entryName es)"
    by (simp add: entryPath_def)
  moreover have "inj_on (path_join (outputDir CONFIG)) (set (map entryName es))"
    by (rule inj_onI) (rule path_join_inject)
  ultimately show ?thesis using assms by (simp add: distinct_map del: map_map)
qed










lemma find_unique:
  assumes "distinct (map f xs)" and "e \<in> set xs"
  shows "find (\<lambda>x. f x = f e) xs = Some e"
  using assms by (induction xs) (auto simp: image_iff)

lemma lockedAt_entry:
  assumes "distinct (map entryName es)" and "e \<in> set es"
  shows "lockedAt es (entryPath e) = entryLocked e"
  using find_unique [OF distinct_entryPaths [OF assms(1)] assms(2)]
  by (simp add: lockedAt_def)

lemma lockedAt_filter:
  assumes d: "distinct (map entryName es)" and e: "e \<in> set es" and q: "Q e"
  shows "lockedAt (filter Q es) (entryPath e) = lockedAt es (entryPath e)"
proof -
  have d': "distinct (map entryName (filter Q es))" using d by (rule distinct_map_filter)
  have "e \<in> set (filter Q es)" using e q by simp
  then show ?thesis
    using lockedAt_entry [OF d'] lockedAt_entry [OF d e] by simp
qed















lemma resultsAt_nonempty: "resultsAt api es ps sched i \<noteq> []"
  by (cases "api i") (simp_all add: resultsAt_def)











text \<open>
  C5. The claim: a live run produces exactly one result per artifact. The push of the
  success result and \<^verbatim>\<open>deleteVideo\<close> stand in the same \<^verbatim>\<open>try\<close>: when the uploader succeeds
  and \<^verbatim>\<open>unlinkSync\<close> raises, the \<^verbatim>\<open>catch\<close> pushes a failure result for the artifact that
  already has its success result. With \<open>a\<close> locked and every request accepted, the run
  over two artifacts returns three results, two of them for \<open>a\<close>.
\<close>

theorem locked_file_gets_two_results:
  "getPendingVideos lockedDirectory = Inr [''/app/output/a.mp4'', ''/app/output/b.mp4'']
   \<and> uploadVideo lockedDirectory (allSucceed 0) ''/app/output/a.mp4'' 1705359600000
       = Inr \<lparr> response_success = True, response_videoId = ''id'' \<rparr>
   \<and> deleteVideo lockedDirectory ''/app/output/a.mp4''
       = Inl (EPERM ''unlink'' ''/app/output/a.mp4'')
   \<and> snd (uploadIteration allSucceed [''/app/output/a.mp4'', ''/app/output/b.mp4'']
             [1705359600000, 1705361400000] 0 (lockedWorld, []))
       = [\<lparr> success = Some True, videoId = Some ''id'', error = None,
            videoPath = ''/app/output/a.mp4'', scheduledFor = Some 1705359600000,
            dryRun = None \<rparr>,
          \<lparr> success = Some False, videoId = None,
            error = Some (''EPERM: operation not permitted, unlink ''
                            @ [CHR 0x27] @ ''/app/output/a.mp4'' @ [CHR 0x27]),
            videoPath = ''/app/output/a.mp4'', scheduledFor = None, dryRun = None \<rparr>]
   \<and> map_sum errorMessage (map videoPath \<circ> snd)
         (uploadAllPending 1705330800000 (frozenClock 1705330800000) allSucceed False lockedWorld)
       = Inr [''/app/output/a.mp4'', ''/app/output/a.mp4'', ''/app/output/b.mp4'']
   \<and> map_sum errorMessage (map success \<circ> snd)
         (uploadAllPending 1705330800000 (frozenClock 1705330800000) allSucceed False lockedWorld)
       = Inr [Some True, Some False, Some True]"
  by code_simp

text \<open>
  C6. A dry run returns the state as it was: the directory and the log of uploader calls are
  unchanged. It returns one result per artifact of the queue; result \<open>i\<close> has the path of
  artifact \<open>i\<close> and slot \<open>i\<close> of the schedule, the flag \<^verbatim>\<open>dryRun\<close>, and neither \<^verbatim>\<open>success\<close>
  nor \<^verbatim>\<open>error\<close> nor \<^verbatim>\<open>videoId\<close>.
\<close>

theorem dry_run_changes_nothing:
  "case uploadAllPending now dateNow api True w of
     Inl e \<Rightarrow> False
   | Inr (w', results) \<Rightarrow>
       w' = w
     \<and> (case getPendingVideos (files w) of
          Inl e \<Rightarrow> False
        | Inr ps \<Rightarrow>
            length results = length ps
          \<and> (\<forall>i < length ps.
                videoPath (results ! i) = ps ! i
              \<and> scheduledFor (results ! i) = Some (calculateSchedule now dateNow (length ps) ! i)
              \<and> success (results ! i) = None
              \<and> error (results ! i) = None
              \<and> videoId (results ! i) = None
              \<and> dryRun (results ! i) = Some True))"
proof -
  let ?ps = "queueOf (entriesOf (files w))"
  show ?thesis
  proof (cases "?ps = []")
    case True
    then show ?thesis
      by (simp add: uploadAllPending_def getPendingVideos_queueOf)
  next
    case False
    then show ?thesis
      by (simp add: uploadAllPending_def getPendingVideos_queueOf Let_def dryRunResult_def
          arrayIndex_def length_calculateSchedule)
  qed
qed

text \<open>The dry run of the example, at 10:00 in the reference zone.\<close>

theorem dry_run_changes_nothing_witness:
  "getPendingVideos (files exampleWorld)
     = Inr [''/app/output/a.mp4'', ''/app/output/b.mp4'', ''/app/output/c.mp4'']
   \<and> calculateSchedule 1705330800000 (frozenClock 1705330800000) 3
     = [1705359600000, 1705361400000, 1705363200000]
   \<and> uploadAllPending 1705330800000 (frozenClock 1705330800000) secondFails True exampleWorld
     = Inr (exampleWorld,
            [\<lparr> success = None, videoId = None, error = None,
                videoPath = ''/app/output/a.mp4'', scheduledFor = Some 1705359600000,
                dryRun = Some True \<rparr>,
             \<lparr> success = None, videoId = None, error = None,
                videoPath = ''/app/output/b.mp4'', scheduledFor = Some 1705361400000,
                dryRun = Some True \<rparr>,
             \<lparr> success = None, videoId = None, error = None,
                videoPath = ''/app/output/c.mp4'', scheduledFor = Some 1705363200000,
                dryRun = Some True \<rparr>])
   \<and> (case uploadAllPending 1705330800000 (frozenClock 1705330800000) secondFails True exampleWorld of
         Inl e \<Rightarrow> False
       | Inr (w', results) \<Rightarrow>
           w' = exampleWorld
         \<and> (case getPendingVideos (files exampleWorld) of
              Inl e \<Rightarrow> False
            | Inr ps \<Rightarrow>
                length results = length ps
              \<and> (\<forall>i < length ps.
                    videoPath (results ! i) = ps ! i
                  \<and> scheduledFor (results ! i)
                      = Some (calculateSchedule 1705330800000 (frozenClock 1705330800000)
                                (length ps) ! i)
                  \<and> success (results ! i) = None
                  \<and> error (results ! i) = None
                  \<and> videoId (results ! i) = None
                  \<and> dryRun (results ! i) = Some True)))"
proof -
  have q: "getPendingVideos (files exampleWorld)
     = Inr [''/app/output/a.mp4'', ''/app/output/b.mp4'', ''/app/output/c.mp4'']"
    by code_simp
  have s: "calculateSchedule 1705330800000 (frozenClock 1705330800000) 3
     = [1705359600000, 1705361400000, 1705363200000]"
    by code_simp
  have r: "uploadAllPending 1705330800000 (frozenClock 1705330800000) secondFails True exampleWorld
     = Inr (exampleWorld,
            [\<lparr> success = None, videoId = None, error = None,
                videoPath = ''/app/output/a.mp4'', scheduledFor = Some 1705359600000,
                dryRun = Some True \<rparr>,
             \<lparr> success = None, videoId = None, error = None,
                videoPath = ''/app/output/b.mp4'', scheduledFor = Some 1705361400000,
                dryRun = Some True \<rparr>,
             \<lparr> success = None, videoId = None, error = None,
                videoPath = ''/app/output/c.mp4'', scheduledFor = Some 1705363200000,
                dryRun = Some True \<rparr>])"
    by code_simp
  from q s r
    dry_run_changes_nothing
        [where now = 1705330800000 and dateNow = "frozenClock 1705330800000"
           and api = secondFails and w = exampleWorld]
  show ?thesis by (intro conjI)
qed

text \<open>
  C7. When the output directory does not exist, \<^verbatim>\<open>getPendingVideos\<close> returns the empty list
  and raises nothing; when the queue is empty, \<^verbatim>\<open>uploadAllPending\<close> returns no results and
  leaves the state as it was, in a dry run and in a live run.
\<close>

theorem empty_queue_is_not_an_error:
  "(\<not> existsSync fs (outputDir CONFIG) \<longrightarrow> getPendingVideos fs = Inr [])
   \<and> (getPendingVideos (files w) = Inr [] \<longrightarrow> uploadAllPending now dateNow api dry w = Inr (w, []))"
  by (simp add: getPendingVideos_def uploadAllPending_def)

text \<open>A run without an output directory.\<close>

theorem empty_queue_is_not_an_error_witness:
  "\<not> existsSync None (outputDir CONFIG)
   \<and> getPendingVideos None = Inr []
   \<and> getPendingVideos (files \<lparr> files = None, uploadCalls = [] \<rparr>) = Inr []
   \<and> uploadAllPending 1705330800000 (frozenClock 1705330800000) secondFails False
        \<lparr> files = None, uploadCalls = [] \<rparr>
       = Inr (\<lparr> files = None, uploadCalls = [] \<rparr>, [])"
proof -
  have a: "\<not> existsSync None (outputDir CONFIG)" by (simp add: existsSync_def)
  show ?thesis
    using a empty_queue_is_not_an_error
        [where fs = None and w = "\<lparr> files = None, uploadCalls = [] \<rparr>"
           and now = 1705330800000 and dateNow = "frozenClock 1705330800000"
           and api = secondFails and dry = False]
    by simp
qed

text \<open>
  C8. The claim: hidden entries (names that begin with a dot) never appear in the queue.
  \<^verbatim>\<open>getPendingVideos\<close> filters by the suffix \<^verbatim>\<open>.mp4\<close> only, unlike the other directory
  listings of the repository, which also drop names that start with a dot. A directory with
  \<^verbatim>\<open>._clip.mp4\<close> and \<^verbatim>\<open>clip.mp4\<close> gives a queue with both.
\<close>

theorem hidden_entry_is_listed:
  "getPendingVideos hiddenDirectory = Inr [''/app/output/._clip.mp4'', ''/app/output/clip.mp4'']
   \<and> startsWith ''._clip.mp4'' ''.''"
  by code_simp

text \<open>
  C9. \<^verbatim>\<open>deleteVideo\<close> on a path that does not exist returns the file system unchanged and
  raises nothing, although \<^verbatim>\<open>unlinkSync\<close> alone would raise there; and after a
  \<^verbatim>\<open>deleteVideo\<close> that returned, a second one on the same path returns too and changes
  nothing.
\<close>

theorem deleteVideo_idempotent:
  "(\<not> existsSync fs p \<longrightarrow> deleteVideo fs p = Inr fs \<and> isl (unlinkSync fs p))
   \<and> (deleteVideo fs p = Inr fs' \<longrightarrow> deleteVideo fs' p = Inr fs')"
proof -
  have 1: "\<not> existsSync fs p \<longrightarrow> deleteVideo fs p = Inr fs \<and> isl (unlinkSync fs p)"
  proof
    assume a: "\<not> existsSync fs p"
    have "isl (unlinkSync fs p)"
    proof (cases fs)
      case None
      then show ?thesis by (simp add: unlinkSync_def)
    next
      case (Some es)
      then have "find (\<lambda>e. entryPath e = p) es = None"
        using a by (auto simp: existsSync_def find_None_iff)
      then show ?thesis using Some by (simp add: unlinkSync_def)
    qed
    then show "deleteVideo fs p = Inr fs \<and> isl (unlinkSync fs p)"
      using a by (simp add: deleteVideo_def)
  qed
  have 2: "deleteVideo fs p = Inr fs' \<longrightarrow> deleteVideo fs' p = Inr fs'"
  proof
    assume a: "deleteVideo fs p = Inr fs'"
    have "\<not> existsSync fs' p"
    proof (cases "existsSync fs p")
      case False
      then show ?thesis using a by (simp add: deleteVideo_def)
    next
      case True
      then obtain es where es: "fs = Some es" by (cases fs) (auto simp: existsSync_def)
      then show ?thesis using a True
        by (auto simp: deleteVideo_def unlinkSync_def existsSync_def split: if_splits option.splits)
    qed
    then show "deleteVideo fs' p = Inr fs'" by (simp add: deleteVideo_def)
  qed
  show ?thesis using 1 2 by blast
qed

text \<open>Removing \<open>a\<close> from the example directory, twice.\<close>

theorem deleteVideo_idempotent_witness:
  "deleteVideo exampleDirectory ''/app/output/a.mp4''
     = Inr (Some [(''b.mp4'', 20, False), (''notes.txt'', 5, False), (''c.mp4'', 30, False)])
   \<and> \<not> existsSync (Some [(''b.mp4'', 20, False), (''notes.txt'', 5, False), (''c.mp4'', 30, False)])
         ''/app/output/a.mp4''
   \<and> deleteVideo (Some [(''b.mp4'', 20, False), (''notes.txt'', 5, False), (''c.mp4'', 30, False)])
         ''/app/output/a.mp4''
       = Inr (Some [(''b.mp4'', 20, False), (''notes.txt'', 5, False), (''c.mp4'', 30, False)])
   \<and> isl (unlinkSync (Some [(''b.mp4'', 20, False), (''notes.txt'', 5, False), (''c.mp4'', 30, False)])
            ''/app/output/a.mp4'')"
proof -
  have a: "deleteVideo exampleDirectory ''/app/output/a.mp4''
     = Inr (Some [(''b.mp4'', 20, False), (''notes.txt'', 5, False), (''c.mp4'', 30, False)])"
    by code_simp
  have b: "\<not> existsSync (Some [(''b.mp4'', 20, False), (''notes.txt'', 5, False), (''c.mp4'', 30, False)])
              ''/app/output/a.mp4''"
    by code_simp
  show ?thesis
    using a b
      deleteVideo_idempotent
        [where fs = "Some [(''b.mp4'', 20, False), (''notes.txt'', 5, False), (''c.mp4'', 30, False)]"
           and p = "''/app/output/a.mp4''"
           and fs' = "Some [(''b.mp4'', 20, False), (''notes.txt'', 5, False), (''c.mp4'', 30, False)]"]
      deleteVideo_idempotent
        [where fs = exampleDirectory and p = "''/app/output/a.mp4''"
           and fs' = "Some [(''b.mp4'', 20, False), (''notes.txt'', 5, False), (''c.mp4'', 30, False)]"]
    by simp
qed

end
